theory Spec2Isabelle
  imports Complex_Main "HOL-Library.Word" "HOL-Library.Multiset"
begin

unbundle bit_operations_syntax

section \<open>Data model (types.go)\<close>

text \<open>
  Go's \<open>[]byte\<close> is a list of 8-bit words; a Go \<open>string\<close> is an Isabelle \<open>string\<close>
  (a list of 8-bit characters). Go's \<open>int\<close> and \<open>int64\<close> fields are only ever compared
  and printed, never used in arithmetic, so they are modelled by \<open>int\<close>; offsets and
  lengths into a buffer are \<open>nat\<close>, under the reading that \<open>int\<close> has 64 bits, so that
  \<open>offset + int(uint32)\<close> cannot wrap.
\<close>

type_synonym byte = "8 word"

record Pixel =
  X :: int
  Y :: int
  Color :: string
  UserID :: string
  Username :: string

record ChatMessage =
  ID :: string
  CUserID :: string
  CUsername :: string
  Message :: string
  Timestamp :: int

definition CanvasWidth :: int where "CanvasWidth = 90"
definition CanvasHeight :: int where "CanvasHeight = 90"

text \<open>The coordinate test that the guarded handlers apply before a write.\<close>

definition inBounds :: "int \<Rightarrow> int \<Rightarrow> bool" where
  "inBounds x y = (x \<ge> 0 \<and> x < CanvasWidth \<and> y \<ge> 0 \<and> y < CanvasHeight)"

definition validPixels :: "Pixel list \<Rightarrow> Pixel list" where
  "validPixels ps = filter (\<lambda>p. inBounds (X p) (Y p)) ps"

section \<open>Reading a buffer\<close>

text \<open>
  An index expression \<open>data[i]\<close> outside the buffer panics in Go. The readers return
  \<open>None\<close> for that panic, so that an out-of-bounds read is a visible branch of the model.
\<close>

definition byteAt :: "byte list \<Rightarrow> nat \<Rightarrow> byte option" where
  "byteAt data i = (if i < length data then Some (data ! i) else None)"

definition le16 :: "byte list \<Rightarrow> nat \<Rightarrow> 16 word option" where
  "le16 data off =
     (case byteAt data off of None \<Rightarrow> None | Some b0 \<Rightarrow>
      case byteAt data (off + 1) of None \<Rightarrow> None | Some b1 \<Rightarrow>
        Some (ucast b0 OR push_bit 8 (ucast b1)))"

definition le32 :: "byte list \<Rightarrow> nat \<Rightarrow> 32 word option" where
  "le32 data off =
     (case byteAt data off of None \<Rightarrow> None | Some b0 \<Rightarrow>
      case byteAt data (off + 1) of None \<Rightarrow> None | Some b1 \<Rightarrow>
      case byteAt data (off + 2) of None \<Rightarrow> None | Some b2 \<Rightarrow>
      case byteAt data (off + 3) of None \<Rightarrow> None | Some b3 \<Rightarrow>
        Some (ucast b0 OR push_bit 8 (ucast b1) OR push_bit 16 (ucast b2)
              OR push_bit 24 (ucast b3)))"

text \<open>\<open>string(data[lo:hi])\<close>: panics unless \<open>lo \<le> hi \<le> len(data)\<close>.\<close>

definition byteChar :: "byte \<Rightarrow> char" where
  "byteChar b = char_of (unat b)"


section \<open>Formatting (fmt.Sprintf)\<close>

definition digitChar :: "nat \<Rightarrow> char" where
  "digitChar d = char_of (48 + d)"

fun showNat :: "nat \<Rightarrow> string" where
  "showNat n = (if n < 10 then [digitChar n] else showNat (n div 10) @ [digitChar (n mod 10)])"

declare showNat.simps [simp del]

text \<open>The verb \<open>%d\<close>.\<close>

definition showInt :: "int \<Rightarrow> string" where
  "showInt i = (if i < 0 then CHR ''-'' # showNat (nat (- i)) else showNat (nat i))"

definition hexChar :: "nat \<Rightarrow> char" where
  "hexChar d = (if d < 10 then char_of (48 + d) else char_of (87 + d))"

fun showHex :: "nat \<Rightarrow> string" where
  "showHex n = (if n < 16 then [hexChar n] else showHex (n div 16) @ [hexChar (n mod 16)])"

declare showHex.simps [simp del]

text \<open>The verb \<open>%06x\<close>: lowercase hexadecimal, padded with zeros on the left to width 6.\<close>

definition fmt06x :: "nat \<Rightarrow> string" where
  "fmt06x n = replicate (6 - length (showHex n)) CHR ''0'' @ showHex n"

text \<open>\<open>fmt.Sprintf("#%06x", colorValue&0xFFFFFF)\<close>\<close>

definition colorString :: "32 word \<Rightarrow> string" where
  "colorString colorValue = CHR ''#'' # fmt06x (unat (colorValue AND 0xFFFFFF))"

text \<open>\<open>fmt.Sprintf("/%s/", room)\<close>, \<open>fmt.Sprintf("/%s/%d:%d", room, x, y)\<close> and
  \<open>fmt.Sprintf("/%s/%s", room, id)\<close>.\<close>

definition roomPrefix :: "string \<Rightarrow> string" where
  "roomPrefix room = ''/'' @ room @ ''/''"

definition pixelKey :: "string \<Rightarrow> int \<Rightarrow> int \<Rightarrow> string" where
  "pixelKey room x y = ''/'' @ room @ ''/'' @ showInt x @ '':'' @ showInt y"

definition chatKey :: "string \<Rightarrow> string \<Rightarrow> string" where
  "chatKey room ident = ''/'' @ room @ ''/'' @ ident"

section \<open>Binary pixel batches (the binary variants of onPixelUpdate)\<close>

text \<open>
  The loop \<open>for i := 0; i < pixelCount && offset+8 <= len(data); i++\<close>, with its two
  counters. The result is \<open>None\<close> when a read inside the body would leave the buffer.
\<close>

function readPixels :: "byte list \<Rightarrow> nat \<Rightarrow> nat \<Rightarrow> nat \<Rightarrow> Pixel list option" where
  "readPixels data pixelCount i offset =
     (if i < pixelCount \<and> offset + 8 \<le> length data then
        (case le16 data offset of None \<Rightarrow> None | Some x \<Rightarrow>
         case le16 data (offset + 2) of None \<Rightarrow> None | Some y \<Rightarrow>
         case le32 data (offset + 4) of None \<Rightarrow> None | Some colorValue \<Rightarrow>
         case readPixels data pixelCount (i + 1) (offset + 8) of None \<Rightarrow> None | Some rest \<Rightarrow>
           Some (\<lparr>X = uint x, Y = uint y, Color = colorString colorValue,
                  UserID = ''unknown'', Username = ''unknown''\<rparr> # rest))
      else Some [])"
  by pat_completeness auto
termination
  by (relation "measure (\<lambda>(data, pixelCount, i, offset). length data - offset)") auto

declare readPixels.simps [simp del]

text \<open>
  What a decoder hands to the rest of its handler: a panic (a read or slice outside the
  buffer), the handler's early \<open>return 1\<close>, or the decoded value.
\<close>

datatype 'a decoded = Panic | DecodeFailure | Decoded 'a

text \<open>The unframed layout: \<open>uint32 pixelCount\<close>, then the pixels. The room is always
  \<open>"default"\<close>.\<close>

definition decodePixelsBinary :: "byte list \<Rightarrow> (string \<times> Pixel list) decoded" where
  "decodePixelsBinary data =
     (if length data \<ge> 4 then
        (case le32 data 0 of None \<Rightarrow> Panic | Some pixelCount \<Rightarrow>
         case readPixels data (unat pixelCount) 0 4 of None \<Rightarrow> Panic
         | Some pixels \<Rightarrow> Decoded (''default'', pixels))
      else DecodeFailure)"

text \<open>The framed layout: \<open>uint32 batchIdLength\<close>, the batch id, \<open>uint32 pixelCount\<close>,
  then the pixels.\<close>

definition decodePixelsFramed :: "byte list \<Rightarrow> (string \<times> Pixel list) decoded" where
  "decodePixelsFramed data =
     (if length data \<ge> 4 then
        (case le32 data 0 of None \<Rightarrow> Panic | Some batchIdLength \<Rightarrow>
         if 4 + unat batchIdLength \<le> length data then
           (let offset = 4 + unat batchIdLength in
            if offset + 4 \<le> length data then
              (case le32 data offset of None \<Rightarrow> Panic | Some pixelCount \<Rightarrow>
               case readPixels data (unat pixelCount) 0 (offset + 4) of None \<Rightarrow> Panic
               | Some pixels \<Rightarrow> Decoded (''default'', pixels))
            else DecodeFailure)
         else DecodeFailure)
      else DecodeFailure)"


section \<open>Binary chat messages (the binary variants of onChatMessages)\<close>



section \<open>Scanning (fmt.Sscanf with the format "%d:%d")\<close>

text \<open>
  The scanner of Go's \<open>fmt\<close> package for this one format. Before a number it skips
  spaces (a newline is an error), accepts one sign, then takes the longest run of
  decimal digits and underscores; the token must be a base-10 integer that fits 64 bits,
  so a token with an underscore is an error. The literal \<open>:\<close> must follow. Input left over
  after the second number is ignored. Some result means \<open>n == 2 && err == nil\<close>. Only the
  ASCII spaces are modelled; bytes from 0x80 upwards count as non-space.
\<close>

definition isSpaceChar :: "char \<Rightarrow> bool" where
  "isSpaceChar c = ((9 \<le> (of_char c :: nat) \<and> (of_char c :: nat) \<le> 13) \<or> (of_char c :: nat) = 32)"

fun skipSpace :: "string \<Rightarrow> string option" where
  "skipSpace [] = Some []"
| "skipSpace (c # cs) =
     (if (of_char c :: nat) = 10 then None
      else if isSpaceChar c then skipSpace cs else Some (c # cs))"

definition isDigitChar :: "char \<Rightarrow> bool" where
  "isDigitChar c = (48 \<le> (of_char c :: nat) \<and> (of_char c :: nat) \<le> 57)"

definition isNumberChar :: "char \<Rightarrow> bool" where
  "isNumberChar c = (isDigitChar c \<or> c = CHR ''_'')"

definition digitsValue :: "string \<Rightarrow> nat" where
  "digitsValue tok = foldl (\<lambda>acc c. 10 * acc + ((of_char c :: nat) - 48)) 0 tok"

definition scanInt :: "string \<Rightarrow> (int \<times> string) option" where
  "scanInt s =
     (case skipSpace s of None \<Rightarrow> None
      | Some [] \<Rightarrow> None
      | Some (c # cs) \<Rightarrow>
        (let neg = (c = CHR ''-'');
             body = (if c = CHR ''-'' \<or> c = CHR ''+'' then cs else c # cs);
             tok = takeWhile isNumberChar body;
             rest = dropWhile isNumberChar body;
             v = (if neg then - int (digitsValue tok) else int (digitsValue tok))
         in if tok = [] \<or> CHR ''_'' \<in> set tok then None
            else if - (2 ^ 63) \<le> v \<and> v < 2 ^ 63 then Some (v, rest) else None))"

definition sscanfCoord :: "string \<Rightarrow> (int \<times> int) option" where
  "sscanfCoord s =
     (case scanInt s of None \<Rightarrow> None
      | Some (x, r1) \<Rightarrow>
        (case r1 of [] \<Rightarrow> None
         | c # r2 \<Rightarrow>
           if c = CHR '':'' then (case scanInt r2 of None \<Rightarrow> None | Some (y, r3) \<Rightarrow> Some (x, y))
           else None))"

section \<open>The key-value collaborator\<close>

text \<open>
  Modelled from the spec: the key-value engine behind \<open>database.New\<close>, \<open>Put\<close>, \<open>Get\<close>,
  \<open>List\<close> and \<open>Delete\<close> is an external collaborator. A database is its stored entries,
  in listing order, together with the calls that fail: every operation may return an
  error. \<open>List\<close> returns the keys that start with the prefix; \<open>Get\<close> of an absent key is
  an error; \<open>Put\<close> overwrites in place or appends. \<open>None\<close> stands for the error result.
\<close>

record database =
  entries :: "(string \<times> byte list) list"
  listFails :: "string \<Rightarrow> bool"
  getFails :: "string \<Rightarrow> bool"
  putFails :: "string \<Rightarrow> bool"
  deleteFails :: "string \<Rightarrow> bool"

definition hasPrefix :: "string \<Rightarrow> string \<Rightarrow> bool" where
  "hasPrefix p k = (take (length p) k = p)"

fun upsert :: "string \<Rightarrow> byte list \<Rightarrow> (string \<times> byte list) list \<Rightarrow> (string \<times> byte list) list" where
  "upsert k v [] = [(k, v)]"
| "upsert k v (e # es) = (if fst e = k then (k, v) # es else e # upsert k v es)"

definition dbList :: "database \<Rightarrow> string \<Rightarrow> string list option" where
  "dbList db p = (if listFails db p then None
                  else Some (filter (hasPrefix p) (map fst (entries db))))"

definition dbGet :: "database \<Rightarrow> string \<Rightarrow> byte list option" where
  "dbGet db k = (if getFails db k then None else map_of (entries db) k)"

definition dbPut :: "database \<Rightarrow> string \<Rightarrow> byte list \<Rightarrow> database option" where
  "dbPut db k v = (if putFails db k then None
                   else Some (db\<lparr>entries := upsert k v (entries db)\<rparr>))"


text \<open>The two databases, \<open>/canvas\<close> and \<open>/chat\<close>; \<open>None\<close> when \<open>database.New\<close> fails.\<close>

record world =
  canvas :: "database option"
  chat :: "database option"

text \<open>The pooled handles: \<open>initDatabases\<close> opens both databases and fails when either
  cannot be opened.\<close>

definition getCanvasDB :: "world \<Rightarrow> database option" where
  "getCanvasDB w = (case canvas w of None \<Rightarrow> None
                    | Some c \<Rightarrow> (case chat w of None \<Rightarrow> None | Some d \<Rightarrow> Some c))"


section \<open>The JSON library\<close>

text \<open>
  \<open>encoding/json\<close> is a library, so the handlers take its functions as a parameter: one
  field for each target type of \<open>json.Unmarshal\<close> and each source type of
  \<open>json.Marshal\<close>; \<open>None\<close> is a non-nil error. A number decoded into \<open>interface{}\<close> is a
  \<open>float64\<close>, modelled by the rational it denotes.
\<close>

record PixelBatch =
  Pixels :: "Pixel list"
  Room :: string
  BatchTimestamp :: int
  BatchId :: string
  SourceId :: string

datatype iface = IFloat rat | IString string | IOther

record CompressedBatch =
  P :: "iface list list"
  R :: string
  T :: int
  B :: string
  S :: string

record ChatEnvelope =
  Msg :: ChatMessage
  EnvRoom :: string
  EnvSourceId :: string

record jsonlib =
  unmarshalPixels :: "byte list \<Rightarrow> Pixel list option"
  unmarshalPixelBatch :: "byte list \<Rightarrow> PixelBatch option"
  unmarshalCompressed :: "byte list \<Rightarrow> CompressedBatch option"
  unmarshalChatEnvelope :: "byte list \<Rightarrow> ChatEnvelope option"
  unmarshalChatMessage :: "byte list \<Rightarrow> ChatMessage option"
  unmarshalPixel :: "byte list \<Rightarrow> Pixel option"
  marshalPixel :: "Pixel \<Rightarrow> byte list option"
  marshalChatMessage :: "ChatMessage \<Rightarrow> byte list option"


section \<open>Pixel ingestion (onPixelUpdate)\<close>

text \<open>
  A handler that can panic returns an outcome; the other handlers return their result
  directly. A pub/sub handler's result is its return code and the databases it leaves.
\<close>

datatype 'a outcome = Panicked | Returned 'a

definition defaultRoom :: "string \<Rightarrow> string" where
  "defaultRoom room = (if room = [] then ''default'' else room)"

text \<open>The loop body \<open>json.Marshal(pixel)\<close>, \<open>db.Put(key, pixelData)\<close>, with both errors
  ignored as in the source.\<close>

definition putPixel :: "jsonlib \<Rightarrow> string \<Rightarrow> Pixel \<Rightarrow> database \<Rightarrow> database" where
  "putPixel J room pixel db =
     (case marshalPixel J pixel of None \<Rightarrow> db
      | Some pixelData \<Rightarrow>
        (case dbPut db (pixelKey room (X pixel) (Y pixel)) pixelData of None \<Rightarrow> db
         | Some db' \<Rightarrow> db'))"

fun putPixels :: "jsonlib \<Rightarrow> string \<Rightarrow> Pixel list \<Rightarrow> database \<Rightarrow> database" where
  "putPixels J room [] db = db"
| "putPixels J room (pixel # rest) db = putPixels J room rest (putPixel J room pixel db)"

text \<open>The loop of part_003 and part_002, with the bounds test inside the body.\<close>

fun putPixelsChecked :: "jsonlib \<Rightarrow> string \<Rightarrow> Pixel list \<Rightarrow> database \<Rightarrow> database" where
  "putPixelsChecked J room [] db = db"
| "putPixelsChecked J room (pixel # rest) db =
     putPixelsChecked J room rest
       (if X pixel \<ge> 0 \<and> X pixel < CanvasWidth \<and> Y pixel \<ge> 0 \<and> Y pixel < CanvasHeight
        then putPixel J room pixel db else db)"

text \<open>backend.go: the batch object, no bounds test.\<close>

definition onPixelUpdate_backend :: "jsonlib \<Rightarrow> world \<Rightarrow> byte list \<Rightarrow> nat \<times> world" where
  "onPixelUpdate_backend J w data =
     (case unmarshalPixelBatch J data of None \<Rightarrow> (1, w)
      | Some pixelBatch \<Rightarrow>
        (case canvas w of None \<Rightarrow> (1, w)
         | Some db \<Rightarrow>
           (0, w\<lparr>canvas := Some (putPixels J (defaultRoom (Room pixelBatch))
                                      (Pixels pixelBatch) db)\<rparr>)))"

text \<open>part_003 (and part_002): the batch object, with the bounds test.\<close>

definition onPixelUpdate :: "jsonlib \<Rightarrow> world \<Rightarrow> byte list \<Rightarrow> nat \<times> world" where
  "onPixelUpdate J w data =
     (case unmarshalPixelBatch J data of None \<Rightarrow> (1, w)
      | Some pixelBatch \<Rightarrow>
        (case canvas w of None \<Rightarrow> (1, w)
         | Some db \<Rightarrow>
           (0, w\<lparr>canvas := Some (putPixelsChecked J (defaultRoom (Room pixelBatch))
                                      (Pixels pixelBatch) db)\<rparr>)))"

text \<open>The decoding part of the bare-array variant (part_000): the array first, and the
  batch object when that fails or is empty.\<close>

definition decodePixelsArray :: "jsonlib \<Rightarrow> byte list \<Rightarrow> (string \<times> Pixel list) decoded" where
  "decodePixelsArray J data =
     (case unmarshalPixels J data of
        Some pixels \<Rightarrow>
          (if length pixels > 0 then Decoded (''default'', pixels)
           else (case unmarshalPixelBatch J data of None \<Rightarrow> DecodeFailure
                 | Some pixelBatch \<Rightarrow>
                   Decoded (if Room pixelBatch \<noteq> [] then Room pixelBatch else ''default'',
                            Pixels pixelBatch)))
      | None \<Rightarrow>
          (case unmarshalPixelBatch J data of None \<Rightarrow> DecodeFailure
           | Some pixelBatch \<Rightarrow>
             Decoded (if Room pixelBatch \<noteq> [] then Room pixelBatch else ''default'',
                      Pixels pixelBatch)))"

text \<open>The decoding part of the batch-object variant (part_003).\<close>

definition decodePixelsObject :: "jsonlib \<Rightarrow> byte list \<Rightarrow> (string \<times> Pixel list) decoded" where
  "decodePixelsObject J data =
     (case unmarshalPixelBatch J data of None \<Rightarrow> DecodeFailure
      | Some pixelBatch \<Rightarrow> Decoded (defaultRoom (Room pixelBatch), Pixels pixelBatch))"

text \<open>The conversion \<open>int(x)\<close> of a \<open>float64\<close>: truncation towards zero. (Go leaves
  the result open for values outside the range of \<open>int\<close>; the model truncates there as
  well.)\<close>

definition truncFloat :: "rat \<Rightarrow> int" where
  "truncFloat r = (if r \<ge> 0 then \<lfloor>r\<rfloor> else \<lceil>r\<rceil>)"

text \<open>One positional triple of the compressed format: kept when it has at least three
  entries, the first two numbers and the third a string; dropped otherwise.\<close>

definition compressedPixel :: "string \<Rightarrow> iface list \<Rightarrow> Pixel list" where
  "compressedPixel sourceId p =
     (case p of
        IFloat x # IFloat y # IString color # others \<Rightarrow>
          [\<lparr>X = truncFloat x, Y = truncFloat y, Color = color,
            UserID = sourceId, Username = ''unknown''\<rparr>]
      | _ \<Rightarrow> [])"

text \<open>The decoding part of the compressed variant (part_000, part_004): the compressed
  object first, and the batch object when that fails or has no entries.\<close>

definition decodePixelsCompressed :: "jsonlib \<Rightarrow> byte list \<Rightarrow> (string \<times> Pixel list) decoded" where
  "decodePixelsCompressed J data =
     (case unmarshalCompressed J data of
        Some compressedBatch \<Rightarrow>
          (if length (P compressedBatch) > 0
           then Decoded (defaultRoom (defaultRoom (R compressedBatch)),
                         concat (map (compressedPixel (S compressedBatch)) (P compressedBatch)))
           else (case unmarshalPixelBatch J data of None \<Rightarrow> DecodeFailure
                 | Some pixelBatch \<Rightarrow> Decoded (defaultRoom (Room pixelBatch), Pixels pixelBatch)))
      | None \<Rightarrow>
          (case unmarshalPixelBatch J data of None \<Rightarrow> DecodeFailure
           | Some pixelBatch \<Rightarrow> Decoded (defaultRoom (Room pixelBatch), Pixels pixelBatch)))"

text \<open>The rest of the pooled handlers (part_000, part_004): open the pooled database,
  keep the valid pixels, save them.\<close>

definition savePixels :: "jsonlib \<Rightarrow> world \<Rightarrow> (string \<times> Pixel list) decoded \<Rightarrow> (nat \<times> world) outcome" where
  "savePixels J w d =
     (case d of Panic \<Rightarrow> Panicked
      | DecodeFailure \<Rightarrow> Returned (1, w)
      | Decoded (room, pixels) \<Rightarrow>
        (case getCanvasDB w of None \<Rightarrow> Returned (1, w)
         | Some db \<Rightarrow>
           Returned (0, w\<lparr>canvas := Some (putPixels J room (validPixels pixels) db)\<rparr>)))"

definition onPixelUpdate_array :: "jsonlib \<Rightarrow> world \<Rightarrow> byte list \<Rightarrow> (nat \<times> world) outcome" where
  "onPixelUpdate_array J w data = savePixels J w (decodePixelsArray J data)"

definition onPixelUpdate_compressed :: "jsonlib \<Rightarrow> world \<Rightarrow> byte list \<Rightarrow> (nat \<times> world) outcome" where
  "onPixelUpdate_compressed J w data = savePixels J w (decodePixelsCompressed J data)"



section \<open>Chat ingestion (onChatMessages)\<close>

text \<open>backend.go: the key is built from the timestamp, \<open>fmt.Sprintf("/%s/%d", room,
  message.Timestamp)\<close>.\<close>

definition onChatMessages_backend :: "jsonlib \<Rightarrow> world \<Rightarrow> byte list \<Rightarrow> nat \<times> world" where
  "onChatMessages_backend J w data =
     (case unmarshalChatEnvelope J data of None \<Rightarrow> (1, w)
      | Some message \<Rightarrow>
        (case chat w of None \<Rightarrow> (1, w)
         | Some db \<Rightarrow>
           (case marshalChatMessage J (Msg message) of None \<Rightarrow> (0, w)
            | Some messageData \<Rightarrow>
              (case dbPut db (''/'' @ defaultRoom (EnvRoom message) @ ''/''
                                @ showInt (Timestamp (Msg message))) messageData of
                 None \<Rightarrow> (0, w)
               | Some db' \<Rightarrow> (0, w\<lparr>chat := Some db'\<rparr>)))))"

text \<open>part_003 (and part_002, part_004): the key is built from the message id.\<close>

definition onChatMessages :: "jsonlib \<Rightarrow> world \<Rightarrow> byte list \<Rightarrow> nat \<times> world" where
  "onChatMessages J w data =
     (case unmarshalChatEnvelope J data of None \<Rightarrow> (1, w)
      | Some message \<Rightarrow>
        (case chat w of None \<Rightarrow> (1, w)
         | Some db \<Rightarrow>
           (case marshalChatMessage J (Msg message) of None \<Rightarrow> (0, w)
            | Some messageData \<Rightarrow>
              (case dbPut db (chatKey (defaultRoom (EnvRoom message)) (ID (Msg message)))
                      messageData of
                 None \<Rightarrow> (0, w)
               | Some db' \<Rightarrow> (0, w\<lparr>chat := Some db'\<rparr>)))))"



section \<open>The canvas query (getCanvas)\<close>

text \<open>An HTTP handler answers with an error status or with status 200 and a body. The
  room parameter is \<open>None\<close> when the query has none.\<close>

datatype 'a httpResult = HttpError nat | HttpOK 'a

type_synonym grid = "string list list"

definition blankCanvas :: grid where
  "blankCanvas = replicate (nat CanvasHeight) (replicate (nat CanvasWidth) ''#ffffff'')"

text \<open>The assignment \<open>canvas[y][x] = color\<close>; \<open>None\<close> is the index panic.\<close>

definition setCell :: "grid \<Rightarrow> int \<Rightarrow> int \<Rightarrow> string \<Rightarrow> grid option" where
  "setCell cv x y color =
     (if 0 \<le> y \<and> nat y < length cv \<and> 0 \<le> x \<and> nat x < length (cv ! nat y)
      then Some (cv[nat y := (cv ! nat y)[nat x := color]]) else None)"


text \<open>The loop body of backend.go: no bounds test before the assignment.\<close>

definition overlayKey_backend :: "jsonlib \<Rightarrow> database \<Rightarrow> string \<Rightarrow> grid \<Rightarrow> string \<Rightarrow> grid option" where
  "overlayKey_backend J db prefix cv key =
     (if length key > length prefix then
        (case sscanfCoord (drop (length prefix) key) of None \<Rightarrow> Some cv
         | Some (x, y) \<Rightarrow>
           (case dbGet db key of None \<Rightarrow> Some cv
            | Some pixelData \<Rightarrow>
              (case unmarshalPixel J pixelData of None \<Rightarrow> Some cv
               | Some pixel \<Rightarrow> setCell cv x y (Color pixel))))
      else Some cv)"

fun overlayKeys :: "(grid \<Rightarrow> string \<Rightarrow> grid option) \<Rightarrow> grid \<Rightarrow> string list \<Rightarrow> grid option" where
  "overlayKeys step cv [] = Some cv"
| "overlayKeys step cv (key # keys) =
     (case step cv key of None \<Rightarrow> None | Some cv' \<Rightarrow> overlayKeys step cv' keys)"


text \<open>backend.go: a database that cannot be opened answers 500.\<close>

definition getCanvas_backend :: "jsonlib \<Rightarrow> world \<Rightarrow> string option \<Rightarrow> grid httpResult outcome" where
  "getCanvas_backend J w roomParam =
     (case roomParam of None \<Rightarrow> Returned (HttpError 400)
      | Some room \<Rightarrow>
        (case canvas w of None \<Rightarrow> Returned (HttpError 500)
         | Some db \<Rightarrow>
           (case dbList db (roomPrefix room) of None \<Rightarrow> Returned (HttpOK blankCanvas)
            | Some keys \<Rightarrow>
              (case overlayKeys (overlayKey_backend J db (roomPrefix room)) blankCanvas keys of
                 None \<Rightarrow> Panicked
               | Some cv \<Rightarrow> Returned (HttpOK cv)))))"

section \<open>The chat query (getMessages)\<close>

text \<open>The loop of part_003 over the listed keys, appending each message that decodes.\<close>

fun collectMessages :: "jsonlib \<Rightarrow> database \<Rightarrow> string \<Rightarrow> string list \<Rightarrow> ChatMessage list" where
  "collectMessages J db prefix [] = []"
| "collectMessages J db prefix (key # keys) =
     (if length key \<le> length prefix then collectMessages J db prefix keys
      else case dbGet db key of None \<Rightarrow> collectMessages J db prefix keys
        | Some messageData \<Rightarrow>
          if length messageData > 0 then
            (case unmarshalChatMessage J messageData of
               None \<Rightarrow> collectMessages J db prefix keys
             | Some message \<Rightarrow> message # collectMessages J db prefix keys)
          else collectMessages J db prefix keys)"

text \<open>The loop of backend.go: no test on the length of the stored bytes.\<close>

fun collectMessages_backend :: "jsonlib \<Rightarrow> database \<Rightarrow> string \<Rightarrow> string list \<Rightarrow> ChatMessage list" where
  "collectMessages_backend J db prefix [] = []"
| "collectMessages_backend J db prefix (key # keys) =
     (if length key > length prefix then
        (case dbGet db key of None \<Rightarrow> collectMessages_backend J db prefix keys
         | Some messageData \<Rightarrow>
           (case unmarshalChatMessage J messageData of
              None \<Rightarrow> collectMessages_backend J db prefix keys
            | Some message \<Rightarrow> message # collectMessages_backend J db prefix keys))
      else collectMessages_backend J db prefix keys)"

text \<open>
  \<open>sort.Slice\<close> with the comparison \<open>messages[i].Timestamp < messages[j].Timestamp\<close>.
  Go leaves the order of messages with equal timestamps open; the model takes the
  insertion sort of the list library, and nothing proved below depends on that choice.
\<close>

definition sortByTimestamp :: "ChatMessage list \<Rightarrow> ChatMessage list" where
  "sortByTimestamp messages = sort_key Timestamp messages"

definition getMessages :: "jsonlib \<Rightarrow> world \<Rightarrow> string option \<Rightarrow> ChatMessage list httpResult" where
  "getMessages J w roomParam =
     (case roomParam of None \<Rightarrow> HttpError 400
      | Some room \<Rightarrow>
        (case chat w of None \<Rightarrow> HttpOK []
         | Some db \<Rightarrow>
           (case dbList db (roomPrefix room) of None \<Rightarrow> HttpOK []
            | Some keys \<Rightarrow>
              HttpOK (sortByTimestamp (collectMessages J db (roomPrefix room) keys)))))"

definition getMessages_backend :: "jsonlib \<Rightarrow> world \<Rightarrow> string option \<Rightarrow> ChatMessage list httpResult" where
  "getMessages_backend J w roomParam =
     (case roomParam of None \<Rightarrow> HttpError 400
      | Some room \<Rightarrow>
        (case chat w of None \<Rightarrow> HttpError 500
         | Some db \<Rightarrow>
           (case dbList db (roomPrefix room) of None \<Rightarrow> HttpOK (sortByTimestamp [])
            | Some keys \<Rightarrow>
              HttpOK (sortByTimestamp (collectMessages_backend J db (roomPrefix room) keys)))))"

section \<open>Clearing a room (clearData)\<close>




section \<open>The binary layouts as the specification words them\<close>

text \<open>
  The layout of a batch as the specification gives it, little-endian: a \<open>uint32\<close> count,
  then for each pixel \<open>uint16 x\<close>, \<open>uint16 y\<close>, \<open>uint32 packedRGB\<close>; the framed variant
  puts \<open>uint32 batchIdLength\<close> and the batch id in front. These encoders are not code of
  the repository: they state what a well-formed buffer is.
\<close>

definition enc16 :: "16 word \<Rightarrow> byte list" where
  "enc16 w = [ucast w, ucast (drop_bit 8 w)]"

definition enc32 :: "32 word \<Rightarrow> byte list" where
  "enc32 w = [ucast w, ucast (drop_bit 8 w), ucast (drop_bit 16 w), ucast (drop_bit 24 w)]"

definition encPixel :: "16 word \<times> 16 word \<times> 32 word \<Rightarrow> byte list" where
  "encPixel t = (case t of (x, y, c) \<Rightarrow> enc16 x @ enc16 y @ enc32 c)"

definition encodePixelBatch :: "(16 word \<times> 16 word \<times> 32 word) list \<Rightarrow> byte list" where
  "encodePixelBatch ts = enc32 (of_nat (length ts)) @ concat (map encPixel ts)"

definition encodeFramedBatch :: "byte list \<Rightarrow> (16 word \<times> 16 word \<times> 32 word) list \<Rightarrow> byte list" where
  "encodeFramedBatch batchId ts =
     enc32 (of_nat (length batchId)) @ batchId @ enc32 (of_nat (length ts))
       @ concat (map encPixel ts)"

text \<open>The six lowercase hexadecimal digits of a number below \<open>2 ^ 24\<close>, most significant
  first, and the pixel a well-formed triple stands for.\<close>

definition hexDigits6 :: "nat \<Rightarrow> string" where
  "hexDigits6 n = map (\<lambda>i. hexChar ((n div 16 ^ i) mod 16)) [5, 4, 3, 2, 1, 0]"

definition pixelOf :: "16 word \<times> 16 word \<times> 32 word \<Rightarrow> Pixel" where
  "pixelOf t = (case t of (x, y, c) \<Rightarrow>
     \<lparr>X = uint x, Y = uint y, Color = CHR ''#'' # hexDigits6 (unat c mod 2 ^ 24),
      UserID = ''unknown'', Username = ''unknown''\<rparr>)"


section \<open>Concrete collaborators for evaluation\<close>

text \<open>
  A database with no entries in which no call fails, and a JSON library that stores a
  pixel as the bytes of its color and reads any stored bytes back as a color. They give
  the closed examples below something to run on.
\<close>

definition charByte :: "char \<Rightarrow> byte" where
  "charByte c = of_nat (of_char c)"

definition freshDB :: database where
  "freshDB = \<lparr>entries = [], listFails = (\<lambda>p. False), getFails = (\<lambda>k. False),
              putFails = (\<lambda>k. False), deleteFails = (\<lambda>k. False)\<rparr>"

definition freshWorld :: world where
  "freshWorld = \<lparr>canvas = Some freshDB, chat = Some freshDB\<rparr>"

definition colorJson :: jsonlib where
  "colorJson = \<lparr>unmarshalPixels = (\<lambda>d. None), unmarshalPixelBatch = (\<lambda>d. None),
     unmarshalCompressed = (\<lambda>d. None), unmarshalChatEnvelope = (\<lambda>d. None),
     unmarshalChatMessage = (\<lambda>d. None),
     unmarshalPixel = (\<lambda>d. Some \<lparr>X = 0, Y = 0, Color = map byteChar d, UserID = [], Username = []\<rparr>),
     marshalPixel = (\<lambda>p. Some (map charByte (Color p))),
     marshalChatMessage = (\<lambda>m. None)\<rparr>"

text \<open>A JSON library that stores a chat message as the bytes of its id, and two binary
  chat messages: one with a plain id and one whose id contains the key delimiter.\<close>

definition idJson :: jsonlib where
  "idJson = colorJson\<lparr>
     unmarshalChatMessage := (\<lambda>d. Some \<lparr>ID = map byteChar d, CUserID = [], CUsername = [],
                                          Message = [], Timestamp = 0\<rparr>),
     marshalChatMessage := (\<lambda>m. Some (map charByte (ID m)))\<rparr>"




section \<open>The chat archive as the specification words it\<close>

text \<open>
  The record a listed key contributes to the chat query: the key is longer than the room
  prefix, its bytes can be read, are not empty and decode. This is written from the
  description of the archive, to be compared with the loop of the handler.
\<close>

definition decodedRecord :: "jsonlib \<Rightarrow> database \<Rightarrow> string \<Rightarrow> string \<Rightarrow> ChatMessage option" where
  "decodedRecord J db prefix key =
     (if length key > length prefix then
        (case dbGet db key of None \<Rightarrow> None
         | Some messageData \<Rightarrow> if messageData = [] then None else unmarshalChatMessage J messageData)
      else None)"

text \<open>More collaborators for evaluation: a JSON library that stores a chat message as its
  text and decodes every envelope to one message without an id; a JSON library that reads
  the first stored byte as the timestamp and fails on a zero byte; two chat databases with
  the same entries in opposite orders.\<close>

definition textJson :: jsonlib where
  "textJson = colorJson\<lparr>
     unmarshalChatEnvelope := (\<lambda>d. Some \<lparr>Msg = \<lparr>ID = [], CUserID = ''u1'', CUsername = ''alice'',
                                                  Message = ''hi'', Timestamp = 7\<rparr>,
                                           EnvRoom = ''r'', EnvSourceId = []\<rparr>),
     unmarshalChatMessage := (\<lambda>d. Some \<lparr>ID = [], CUserID = [], CUsername = [],
                                          Message = map byteChar d, Timestamp = 0\<rparr>),
     marshalChatMessage := (\<lambda>m. Some (map charByte (Message m)))\<rparr>"

definition stampJson :: jsonlib where
  "stampJson = colorJson\<lparr>
     unmarshalChatMessage := (\<lambda>d. case d of [] \<Rightarrow> None
        | b # bs \<Rightarrow> if b = 0 then None
                   else Some \<lparr>ID = [], CUserID = [], CUsername = [], Message = [],
                              Timestamp = uint b\<rparr>)\<rparr>"

definition chatDB1 :: database where
  "chatDB1 = freshDB\<lparr>entries := [(''/r/a'', [9]), (''/r/b'', [0]), (''/r/c'', [3])]\<rparr>"

definition chatDB2 :: database where
  "chatDB2 = freshDB\<lparr>entries := [(''/r/c'', [3]), (''/r/b'', [0]), (''/r/a'', [9])]\<rparr>"

text \<open>A JSON library that decodes every chat envelope to the message \<open>m1\<close> of the room
  \<open>r\<close> with timestamp 42, and one that decodes every pixel batch to a batch for the room
  \<open>r1\<close> with one pixel outside the canvas and one inside.\<close>

definition envJson :: jsonlib where
  "envJson = idJson\<lparr>
     unmarshalChatEnvelope := (\<lambda>d. Some \<lparr>Msg = \<lparr>ID = ''m1'', CUserID = ''u1'', CUsername = ''alice'',
                                                  Message = ''hi'', Timestamp = 42\<rparr>,
                                           EnvRoom = ''r'', EnvSourceId = []\<rparr>)\<rparr>"

definition strayJson :: jsonlib where
  "strayJson = colorJson\<lparr>
     unmarshalPixelBatch := (\<lambda>d. Some \<lparr>Pixels =
         [\<lparr>X = 100, Y = 5, Color = ''#ff0000'', UserID = ''u1'', Username = ''alice''\<rparr>,
          \<lparr>X = 10, Y = 5, Color = ''#00ff00'', UserID = ''u1'', Username = ''alice''\<rparr>],
        Room = ''r1'', BatchTimestamp = 0, BatchId = [], SourceId = []\<rparr>)\<rparr>"

section \<open>The canvas as the specification words it\<close>








definition specJson :: jsonlib where
  "specJson = colorJson\<lparr>
     unmarshalPixelBatch := (\<lambda>d. Some \<lparr>Pixels =
         [\<lparr>X = 10, Y = 5, Color = ''#ff0000'', UserID = ''u1'', Username = ''alice''\<rparr>],
        Room = ''r1'', BatchTimestamp = 0, BatchId = [], SourceId = []\<rparr>)\<rparr>"

section \<open>Equivalent content in the wire formats\<close>

text \<open>
  What the formats can share: the cell and the color of a pixel. A pixel of the
  compressed format is the positional triple of its x, y and color, and decodes with the
  batch's source id as user id and the username \<open>unknown\<close>.
\<close>

definition xyc :: "Pixel \<Rightarrow> int \<times> int \<times> string" where
  "xyc p = (X p, Y p, Color p)"

definition compressedTriple :: "Pixel \<Rightarrow> iface list" where
  "compressedTriple p = [IFloat (of_int (X p)), IFloat (of_int (Y p)), IString (Color p)]"

definition anonymous :: "string \<Rightarrow> Pixel \<Rightarrow> Pixel" where
  "anonymous sourceId p = p\<lparr>UserID := sourceId, Username := ''unknown''\<rparr>"

text \<open>A JSON library that decodes every payload, in each of the three JSON formats, to the
  pixel (10, 5) with color \<open>#ff0000\<close> and no user or room.\<close>

definition formatsJson :: jsonlib where
  "formatsJson = colorJson\<lparr>
     unmarshalPixels := (\<lambda>d. Some
        [\<lparr>X = 10, Y = 5, Color = ''#ff0000'', UserID = ''unknown'', Username = ''unknown''\<rparr>]),
     unmarshalPixelBatch := (\<lambda>d. Some \<lparr>Pixels =
         [\<lparr>X = 10, Y = 5, Color = ''#ff0000'', UserID = ''unknown'', Username = ''unknown''\<rparr>],
        Room = [], BatchTimestamp = 0, BatchId = [], SourceId = ''unknown''\<rparr>),
     unmarshalCompressed := (\<lambda>d. Some \<lparr>P = [[IFloat 10, IFloat 5, IString ''#ff0000'']],
        R = [], T = 0, B = [], S = ''unknown''\<rparr>)\<rparr>"

(* properties *)

section \<open>Little-endian reads and hexadecimal rendering\<close>

lemma join16:
  "(ucast (ucast w :: byte) :: 16 word) OR push_bit 8 (ucast (ucast (drop_bit 8 w) :: byte)) = w"
  apply (rule bit_word_eqI)
  apply (simp add: bit_simps)
  apply (auto simp add: not_less)[1]
  done

lemma join32:
  "(ucast (ucast w :: byte) :: 32 word) OR push_bit 8 (ucast (ucast (drop_bit 8 w) :: byte))
     OR push_bit 16 (ucast (ucast (drop_bit 16 w) :: byte))
     OR push_bit 24 (ucast (ucast (drop_bit 24 w) :: byte)) = w"
  apply (rule bit_word_eqI)
  apply (simp add: bit_simps)
  subgoal for n by (cases "8 \<le> n"; cases "16 \<le> n"; cases "24 \<le> n") (auto simp add: not_less)
  done

lemma length_enc16 [simp]: "length (enc16 w) = 2"
  by (simp add: enc16_def)

lemma length_enc32 [simp]: "length (enc32 w) = 4"
  by (simp add: enc32_def)

lemma length_encPixel [simp]: "length (encPixel t) = 8"
  by (cases t) (simp add: encPixel_def)

lemma le16_at: "off = length pre \<Longrightarrow> le16 (pre @ enc16 w @ post) off = Some w"
  by (simp add: le16_def byteAt_def enc16_def nth_append join16)

lemma le32_at: "off = length pre \<Longrightarrow> le32 (pre @ enc32 w @ post) off = Some w"
  by (simp add: le32_def byteAt_def enc32_def nth_append join32)

lemma hexChar_0: "hexChar 0 = CHR ''0''"
  by (simp add: hexChar_def char_of_def bit_simps)

lemma rev_upt_6: "rev [0..<6] = [5, 4, 3, 2, 1, 0]"
  by (simp add: eval_nat_numeral)

lemma low24: "unat ((c :: 32 word) AND 0xFFFFFF) = unat c mod 2 ^ 24"
proof -
  have "(0xFFFFFF :: 32 word) = mask 24" by (simp add: mask_eq_exp_minus_1)
  then have "c AND 0xFFFFFF = take_bit 24 c" by (simp add: take_bit_eq_mask)
  then show ?thesis by (simp add: unsigned_take_bit_eq take_bit_eq_mod unat_mod)
qed

lemma rev_upt_Suc: "rev [0..<Suc k] = map Suc (rev [0..<k]) @ [0]"
proof -
  have "[0..<Suc k] = 0 # map Suc [0..<k]"
    by (simp add: upt_conv_Cons map_Suc_upt del: upt_Suc)
  then show ?thesis by (simp add: rev_map del: upt_Suc)
qed

lemma showHex_small: "n < 16 \<Longrightarrow> showHex n = [hexChar n]"
  by (subst showHex.simps) simp

lemma showHex_big: "\<not> n < 16 \<Longrightarrow> showHex n = showHex (n div 16) @ [hexChar (n mod 16)]"
  by (subst showHex.simps) simp

lemma showHex_padded:
  "0 < k \<Longrightarrow> n < 16 ^ k \<Longrightarrow>
   replicate (k - length (showHex n)) CHR ''0'' @ showHex n
     = map (\<lambda>i. hexChar ((n div 16 ^ i) mod 16)) (rev [0..<k]) \<and> length (showHex n) \<le> k"
proof (induction k arbitrary: n)
  case 0 then show ?case by simp
next
  case (Suc k)
  show ?case
  proof (cases "n < 16")
    case True
    have z: "hexChar ((n div 16 ^ Suc i) mod 16) = CHR ''0''" for i
    proof -
      have "(16::nat) ^ Suc i \<ge> 16" by (simp add: one_le_power)
      then have "n div 16 ^ Suc i = 0" using True by (simp del: power_Suc)
      then show ?thesis by (simp add: hexChar_0 del: power_Suc)
    qed
    have "map (\<lambda>i. hexChar ((n div 16 ^ i) mod 16)) (rev [0..<Suc k])
        = map (\<lambda>i. CHR ''0'') (rev [0..<k]) @ [hexChar n]"
      unfolding rev_upt_Suc using True by (simp add: comp_def z del: power_Suc upt_Suc)
    also have "\<dots> = replicate k CHR ''0'' @ [hexChar n]"
      by (simp add: map_replicate_const del: upt_Suc)
    finally show ?thesis using True by (simp add: showHex_small del: upt_Suc power_Suc)
  next
    case False
    then have k: "0 < k" using Suc.prems by (cases k) auto
    have lt: "n div 16 < 16 ^ k"
      using Suc.prems by (simp add: less_mult_imp_div_less mult.commute)
    note IH = Suc.IH [OF k lt]
    note sh = showHex_big [OF False]
    have d: "\<And>i. n div 16 ^ Suc i = n div 16 div 16 ^ i"
      by (simp add: div_mult2_eq)
    have "replicate (Suc k - length (showHex n)) CHR ''0'' @ showHex n
        = (replicate (k - length (showHex (n div 16))) CHR ''0'' @ showHex (n div 16))
            @ [hexChar (n mod 16)]"
      by (simp add: sh)
    also have "\<dots> = map (\<lambda>i. hexChar ((n div 16 ^ i) mod 16)) (rev [0..<Suc k])"
      unfolding rev_upt_Suc using IH by (simp add: comp_def d del: power_Suc upt_Suc)
    finally show ?thesis using IH by (simp add: sh del: upt_Suc power_Suc)
  qed
qed

lemma fmt06x_digits: "n < 2 ^ 24 \<Longrightarrow> fmt06x n = hexDigits6 n"
  using showHex_padded [of 6 n]
  by (simp add: fmt06x_def hexDigits6_def rev_upt_6 del: power_Suc)

lemma colorString_digits: "colorString c = CHR ''#'' # hexDigits6 (unat c mod 2 ^ 24)"
proof -
  have "unat c mod 2 ^ 24 < 2 ^ 24" by simp
  then show ?thesis unfolding colorString_def low24 by (simp only: fmt06x_digits)
qed

lemma readPixels_encoded:
  "readPixels (pre @ concat (map encPixel ts)) (i + length ts) i (length pre)
     = Some (map pixelOf ts)"
proof (induction ts arbitrary: pre i)
  case Nil
  show ?case by (simp add: readPixels.simps)
next
  case (Cons t ts)
  obtain x y c where t: "t = (x, y, c)" by (cases t)
  define data where "data = pre @ concat (map encPixel (t # ts))"
  define n where "n = i + length (t # ts)"
  have x: "le16 data (length pre) = Some x"
    using le16_at [of "length pre" pre x "enc16 y @ enc32 c @ concat (map encPixel ts)"]
    by (simp add: t encPixel_def data_def)
  have y: "le16 data (length pre + 2) = Some y"
    using le16_at [of "length pre + 2" "pre @ enc16 x" y "enc32 c @ concat (map encPixel ts)"]
    by (simp add: t encPixel_def data_def)
  have c: "le32 data (length pre + 4) = Some c"
    using le32_at [of "length pre + 4" "pre @ enc16 x @ enc16 y" c "concat (map encPixel ts)"]
    by (simp add: t encPixel_def data_def)
  have rest: "readPixels data n (i + 1) (length pre + 8) = Some (map pixelOf ts)"
    using Cons.IH [of "pre @ encPixel t" "Suc i"] by (simp add: data_def n_def)
  have guard: "i < n \<and> length pre + 8 \<le> length data"
    by (simp add: data_def n_def)
  have "readPixels data n i (length pre) = Some (map pixelOf (t # ts))"
    by (subst readPixels.simps, simp only: guard simp_thms if_True x y c rest option.case)
       (simp add: t pixelOf_def colorString_digits)
  then show ?case by (simp add: data_def n_def)
qed

lemma unat_count: "n < 2 ^ 32 \<Longrightarrow> unat (of_nat n :: 32 word) = n"
  by (simp add: unat_of_nat)

section \<open>C8: the binary pixel layout\<close>

text \<open>
  C8. A well-formed binary batch (a count that fits \<open>uint32\<close>, followed by exactly that
  many pixels, each \<open>uint16 x\<close>, \<open>uint16 y\<close>, \<open>uint32 packedRGB\<close>, little-endian) decodes to
  the pixels it encodes, in order: x and y as written, the color \<open>#\<close> followed by the six
  lowercase hexadecimal digits of the low 24 bits of packedRGB, userId and username
  \<open>unknown\<close>. In particular the bytes \<open>uint32(1), uint16(3), uint16(4), uint32(0x00FF00)\<close>
  decode to the pixel \<open>x = 3, y = 4, color = #00ff00\<close>.
\<close>

theorem binary_batch_decodes:
  "length ts < 2 ^ 32 \<Longrightarrow>
     decodePixelsBinary (encodePixelBatch ts) = Decoded (''default'', map pixelOf ts)
     \<and> decodePixelsBinary [1, 0, 0, 0, 3, 0, 4, 0, 0, 0xFF, 0, 0]
         = Decoded (''default'', [\<lparr>X = 3, Y = 4, Color = ''#00ff00'',
                                   UserID = ''unknown'', Username = ''unknown''\<rparr>])"
proof
  assume len: "length ts < 2 ^ 32"
  have cnt: "le32 (encodePixelBatch ts) 0 = Some (of_nat (length ts))"
    using le32_at [of 0 "[]" "of_nat (length ts)" "concat (map encPixel ts)"]
    by (simp add: encodePixelBatch_def)
  have body: "readPixels (encodePixelBatch ts) (length ts) 0 4 = Some (map pixelOf ts)"
    using readPixels_encoded [of "enc32 (of_nat (length ts))" ts 0]
    by (simp add: encodePixelBatch_def)
  show "decodePixelsBinary (encodePixelBatch ts) = Decoded (''default'', map pixelOf ts)"
    by (simp add: decodePixelsBinary_def cnt unat_count [OF len] body)
       (simp add: encodePixelBatch_def)
next
  show "decodePixelsBinary [1, 0, 0, 0, 3, 0, 4, 0, 0, 0xFF, 0, 0]
         = Decoded (''default'', [\<lparr>X = 3, Y = 4, Color = ''#00ff00'',
                                   UserID = ''unknown'', Username = ''unknown''\<rparr>])"
    by (simp add: decodePixelsBinary_def le32_def le16_def byteAt_def readPixels.simps
          colorString_digits hexDigits6_def hexChar_def char_of_def bit_simps)
qed

theorem binary_batch_decodes_witness:
  "decodePixelsBinary (encodePixelBatch [(3, 4, 0x00FF00), (89, 0, 0xFF123456)])
     = Decoded (''default'',
         [\<lparr>X = 3, Y = 4, Color = ''#00ff00'', UserID = ''unknown'', Username = ''unknown''\<rparr>,
          \<lparr>X = 89, Y = 0, Color = ''#123456'', UserID = ''unknown'', Username = ''unknown''\<rparr>])"
proof -
  have "length [(3 :: 16 word, 4 :: 16 word, 0x00FF00 :: 32 word), (89, 0, 0xFF123456)] < 2 ^ 32"
    by simp
  from binary_batch_decodes [OF this]
  show ?thesis
    by (simp add: pixelOf_def hexDigits6_def hexChar_def char_of_def bit_simps)
qed

section \<open>The binary decoders stay inside the buffer\<close>










lemma byteChar_charByte [simp]: "byteChar (charByte c) = c"
  by (simp add: byteChar_def charByte_def unat_of_nat)

lemma readPixels_truncated:
  "i + length ts \<le> n \<Longrightarrow> length tail < 8 \<Longrightarrow>
   readPixels (pre @ concat (map encPixel ts) @ tail) n i (length pre) = Some (map pixelOf ts)"
proof (induction ts arbitrary: pre i)
  case Nil
  then show ?case by (subst readPixels.simps) simp
next
  case (Cons t ts)
  obtain x y c where t: "t = (x, y, c)" by (cases t)
  define data where "data = pre @ concat (map encPixel (t # ts)) @ tail"
  have x: "le16 data (length pre) = Some x"
    using le16_at [of "length pre" pre x "enc16 y @ enc32 c @ concat (map encPixel ts) @ tail"]
    by (simp add: t encPixel_def data_def)
  have y: "le16 data (length pre + 2) = Some y"
    using le16_at [of "length pre + 2" "pre @ enc16 x" y "enc32 c @ concat (map encPixel ts) @ tail"]
    by (simp add: t encPixel_def data_def)
  have c: "le32 data (length pre + 4) = Some c"
    using le32_at [of "length pre + 4" "pre @ enc16 x @ enc16 y" c "concat (map encPixel ts) @ tail"]
    by (simp add: t encPixel_def data_def)
  have rest: "readPixels data n (i + 1) (length pre + 8) = Some (map pixelOf ts)"
    using Cons.IH [of "Suc i" "pre @ encPixel t"] Cons.prems by (simp add: data_def)
  have guard: "i < n \<and> length pre + 8 \<le> length data"
    using Cons.prems by (simp add: data_def)
  have "readPixels data n i (length pre) = Some (map pixelOf (t # ts))"
    by (subst readPixels.simps, simp only: guard simp_thms if_True x y c rest option.case)
       (simp add: t pixelOf_def colorString_digits)
  then show ?case by (simp add: data_def)
qed

lemma decodePixelsBinary_truncated:
  assumes "length ts \<le> unat cnt" "length tail < 8"
  shows "decodePixelsBinary (enc32 cnt @ concat (map encPixel ts) @ tail)
           = Decoded (''default'', map pixelOf ts)"
proof -
  define data where "data = enc32 cnt @ concat (map encPixel ts) @ tail"
  have c: "le32 data 0 = Some cnt"
    using le32_at [of 0 "[]" cnt "concat (map encPixel ts) @ tail"] by (simp add: data_def)
  have b: "readPixels data (unat cnt) 0 4 = Some (map pixelOf ts)"
    using readPixels_truncated [of 0 ts "unat cnt" tail "enc32 cnt"] assms by (simp add: data_def)
  have l: "4 \<le> length data" by (simp add: data_def)
  have "decodePixelsBinary data = Decoded (''default'', map pixelOf ts)"
    by (simp add: decodePixelsBinary_def c b l)
  then show ?thesis by (simp add: data_def)
qed




section \<open>C2: declared lengths and counts that overrun the buffer\<close>




section \<open>Chat keys and room prefixes\<close>


lemma hasPrefix_iff: "hasPrefix p k \<longleftrightarrow> (\<exists>s. k = p @ s)"
  unfolding hasPrefix_def
  by (metis append_eq_conv_conj append_take_drop_id)








section \<open>C10: binary chat messages and the room "default"\<close>




section \<open>Deleting the keys of a room\<close>



lemma other_room_not_under_prefix:
  assumes "CHR ''/'' \<notin> set room" "CHR ''/'' \<notin> set room'" "room' \<noteq> room"
  shows "\<not> hasPrefix (roomPrefix room) (roomPrefix room' @ s)"
proof
  assume "hasPrefix (roomPrefix room) (roomPrefix room' @ s)"
  then obtain t where "roomPrefix room' @ s = roomPrefix room @ t"
    by (auto simp add: hasPrefix_iff)
  then have "room @ (CHR ''/'' # t) = room' @ (CHR ''/'' # s)"
    by (simp add: roomPrefix_def)
  then obtain us where
    "(room = room' @ us \<and> us @ (CHR ''/'' # t) = CHR ''/'' # s)
     \<or> (room @ us = room' \<and> CHR ''/'' # t = us @ (CHR ''/'' # s))"
    unfolding append_eq_append_conv2 by blast
  then show False
  proof
    assume a: "room = room' @ us \<and> us @ (CHR ''/'' # t) = CHR ''/'' # s"
    show False
    proof (cases us)
      case Nil then show ?thesis using a assms by simp
    next
      case (Cons u us')
      then have "u = CHR ''/''" using a by simp
      then show ?thesis using a Cons assms by simp
    qed
  next
    assume b: "room @ us = room' \<and> CHR ''/'' # t = us @ (CHR ''/'' # s)"
    show False
    proof (cases us)
      case Nil then show ?thesis using b assms by simp
    next
      case (Cons u us')
      then have "u = CHR ''/''" using b by simp
      then show ?thesis using b Cons assms by auto
    qed
  qed
qed


section \<open>C9: clearing a room\<close>




section \<open>Sorting and listing order\<close>

lemma collectMessages_map_filter:
  "collectMessages J db prefix keys = List.map_filter (decodedRecord J db prefix) keys"
  by (induction keys) (auto simp add: List.map_filter_simps decodedRecord_def split: option.splits)

lemma mset_map_filter_cong:
  "mset xs = mset ys \<Longrightarrow> mset (List.map_filter f xs) = mset (List.map_filter f ys)"
  by (simp add: List.map_filter_def)

lemma sorted_timestamps: "sorted (map Timestamp (sortByTimestamp ms))"
  by (simp add: sortByTimestamp_def)

lemma mset_sortByTimestamp: "mset (sortByTimestamp ms) = mset ms"
  by (simp add: sortByTimestamp_def)

lemma timestamps_determined:
  assumes "mset ms' = mset ms"
  shows "map Timestamp (sortByTimestamp ms') = map Timestamp (sortByTimestamp ms)"
proof -
  have "mset (map Timestamp (sortByTimestamp ms')) = mset (map Timestamp (sortByTimestamp ms))"
    using assms by (simp add: mset_sortByTimestamp)
  then have "sort (map Timestamp (sortByTimestamp ms)) = map Timestamp (sortByTimestamp ms')"
    by (intro properties_for_sort) (simp_all add: sorted_timestamps)
  moreover have "sort (map Timestamp (sortByTimestamp ms)) = map Timestamp (sortByTimestamp ms)"
    by (intro properties_for_sort) (simp_all add: sorted_timestamps)
  ultimately show ?thesis by simp
qed

lemma map_of_perm:
  assumes "mset es' = mset es" "distinct (map fst es)"
  shows "map_of es' = map_of es"
proof -
  have "mset (map fst es') = mset (map fst es)" using assms(1) by simp
  then have "distinct (map fst es')" using assms(2) by (metis mset_eq_imp_distinct_iff)
  moreover have "set es' = set es" using assms(1) by (rule mset_eq_setD)
  ultimately show ?thesis using assms(2) by (simp add: map_of_inject_set)
qed

lemma stamp_example:
  "getMessages stampJson \<lparr>canvas = None, chat = Some chatDB1\<rparr> (Some ''r'')
     = HttpOK [\<lparr>ID = [], CUserID = [], CUsername = [], Message = [], Timestamp = 3\<rparr>,
               \<lparr>ID = [], CUserID = [], CUsername = [], Message = [], Timestamp = 9\<rparr>]"
  by (simp add: getMessages_def chatDB1_def freshDB_def dbList_def roomPrefix_def hasPrefix_def
        dbGet_def stampJson_def colorJson_def sortByTimestamp_def)

lemma chat_query_backend_sorted:
  "chat w = Some db \<Longrightarrow>
   \<exists>ms. getMessages_backend J w (Some room) = HttpOK ms \<and> sorted (map Timestamp ms)"
  by (simp add: getMessages_backend_def sorted_timestamps split: option.splits)

section \<open>C6: the chat query\<close>

text \<open>
  C6, as the claim states it, fails for a record stored under the room prefix itself. A
  message without an id is stored by the handler under the key \<open>/r/\<close>; the listing
  returns that key and its bytes decode, but the query skips every key that is not longer
  than the prefix, and answers with no message.
\<close>

theorem empty_id_record_counterexample:
  "onChatMessages textJson freshWorld []
     = (0, freshWorld\<lparr>chat := Some (freshDB\<lparr>entries := [(''/r/'', map charByte ''hi'')]\<rparr>)\<rparr>)
   \<and> dbList (freshDB\<lparr>entries := [(''/r/'', map charByte ''hi'')]\<rparr>) (roomPrefix ''r'') = Some [''/r/'']
   \<and> unmarshalChatMessage textJson (map charByte ''hi'')
       = Some \<lparr>ID = [], CUserID = [], CUsername = [], Message = ''hi'', Timestamp = 0\<rparr>
   \<and> getMessages textJson
        (freshWorld\<lparr>chat := Some (freshDB\<lparr>entries := [(''/r/'', map charByte ''hi'')]\<rparr>)\<rparr>)
        (Some ''r'') = HttpOK []"
  by (simp add: onChatMessages_def textJson_def colorJson_def freshWorld_def freshDB_def
        defaultRoom_def dbPut_def chatKey_def dbList_def roomPrefix_def hasPrefix_def
        getMessages_def sortByTimestamp_def comp_def)

text \<open>
  C6, amended. When the chat database opens and the listing succeeds, the chat query
  answers with exactly the messages (as a multiset) of the listed keys that are longer
  than the room prefix and whose bytes can be read, are not empty and decode; a key that
  fails any of this is skipped. The answer is sorted non-decreasing by timestamp. A second
  database with the same entries in any other order gives the same messages and the same
  sequence of timestamps.
\<close>

theorem chat_query_sorted_survivors:
  assumes "chat w = Some db" and "chat w' = Some db'"
    and "mset (entries db') = mset (entries db)" and "distinct (map fst (entries db))"
    and "listFails db' = listFails db" and "getFails db' = getFails db"
    and "\<not> listFails db (roomPrefix room)"
  shows "\<exists>ms ms'. getMessages J w (Some room) = HttpOK ms
           \<and> getMessages J w' (Some room) = HttpOK ms'
           \<and> sorted (map Timestamp ms)
           \<and> mset ms = mset (List.map_filter (decodedRecord J db (roomPrefix room))
                               (filter (hasPrefix (roomPrefix room)) (map fst (entries db))))
           \<and> mset ms' = mset ms \<and> map Timestamp ms' = map Timestamp ms"
proof -
  define pfx where "pfx = roomPrefix room"
  define keys where "keys = filter (hasPrefix pfx) (map fst (entries db))"
  define keys' where "keys' = filter (hasPrefix pfx) (map fst (entries db'))"
  have l: "dbList db pfx = Some keys" using assms(7) by (simp add: dbList_def keys_def pfx_def)
  have l': "dbList db' pfx = Some keys'"
    using assms(5,7) by (simp add: dbList_def keys'_def pfx_def)
  have g: "getMessages J w (Some room) = HttpOK (sortByTimestamp (collectMessages J db pfx keys))"
    using l by (simp add: getMessages_def assms(1) pfx_def)
  have g': "getMessages J w' (Some room) = HttpOK (sortByTimestamp (collectMessages J db' pfx keys'))"
    using l' by (simp add: getMessages_def assms(2) pfx_def)
  have "map_of (entries db') = map_of (entries db)" using map_of_perm [OF assms(3,4)] .
  then have "dbGet db' k = dbGet db k" for k by (simp add: dbGet_def assms(6))
  then have d: "decodedRecord J db' pfx = decodedRecord J db pfx"
    by (intro ext) (simp add: decodedRecord_def)
  have "mset (map fst (entries db')) = mset (map fst (entries db))" using assms(3) by simp
  then have k: "mset keys' = mset keys" by (simp add: keys_def keys'_def)
  have m: "mset (collectMessages J db' pfx keys') = mset (collectMessages J db pfx keys)"
    using mset_map_filter_cong [OF k] by (simp add: collectMessages_map_filter d)
  show ?thesis
    unfolding g g' pfx_def [symmetric] keys_def [symmetric]
    using m timestamps_determined [OF m]
    by (simp add: sorted_timestamps mset_sortByTimestamp collectMessages_map_filter)
qed

theorem chat_query_sorted_survivors_witness:
  "\<exists>ms ms'. getMessages stampJson \<lparr>canvas = None, chat = Some chatDB1\<rparr> (Some ''r'') = HttpOK ms
       \<and> getMessages stampJson \<lparr>canvas = None, chat = Some chatDB2\<rparr> (Some ''r'') = HttpOK ms'
       \<and> sorted (map Timestamp ms)
       \<and> mset ms = mset (List.map_filter (decodedRecord stampJson chatDB1 (roomPrefix ''r''))
                          (filter (hasPrefix (roomPrefix ''r'')) (map fst (entries chatDB1))))
       \<and> mset ms' = mset ms \<and> map Timestamp ms' = map Timestamp ms"
proof -
  have a: "mset (entries chatDB2) = mset (entries chatDB1)"
    by (simp add: chatDB1_def chatDB2_def)
  have b: "distinct (map fst (entries chatDB1))" by (simp add: chatDB1_def)
  have c: "listFails chatDB2 = listFails chatDB1" "getFails chatDB2 = getFails chatDB1"
    "\<not> listFails chatDB1 (roomPrefix ''r'')"
    by (simp_all add: chatDB1_def chatDB2_def freshDB_def)
  show ?thesis
    by (rule chat_query_sorted_survivors [OF _ _ a b c]) simp_all
qed

section \<open>Keys written by the ingestion handlers\<close>

lemma showInt_42: "showInt 42 = ''42''"
  by (simp add: showInt_def showNat.simps digitChar_def char_of_def bit_simps)

lemma showInt_100: "showInt 100 = ''100''"
  by (simp add: showInt_def showNat.simps digitChar_def char_of_def bit_simps)

lemma showInt_5: "showInt 5 = ''5''"
  by (simp add: showInt_def showNat.simps digitChar_def char_of_def bit_simps)

lemma showInt_10: "showInt 10 = ''10''"
  by (simp add: showInt_def showNat.simps digitChar_def char_of_def bit_simps)

lemma scan_100_5: "sscanfCoord ''100:5'' = Some (100, 5)"
  by (simp add: sscanfCoord_def scanInt_def isSpaceChar_def isNumberChar_def isDigitChar_def
        digitsValue_def Let_def)

lemma putPixelsChecked_valid:
  "putPixelsChecked J room ps db = putPixels J room (validPixels ps) db"
  by (induction ps arbitrary: db) (simp_all add: validPixels_def inBounds_def)

lemma putPixel_keys:
  "fst ` set (entries (putPixel J room p db))
     \<subseteq> insert (pixelKey room (X p) (Y p)) (fst ` set (entries db))"
proof -
  have u: "fst ` set (upsert k v es) \<subseteq> insert k (fst ` set es)" for k v es
    by (induction es) auto
  show ?thesis
    using u by (auto simp add: putPixel_def dbPut_def split: option.splits if_splits)
qed

lemma putPixels_keys:
  "fst ` set (entries (putPixels J room ps db))
     \<subseteq> fst ` set (entries db) \<union> (\<lambda>p. pixelKey room (X p) (Y p)) ` set ps"
proof (induction ps arbitrary: db)
  case Nil then show ?case by simp
next
  case (Cons p ps)
  show ?case using Cons.IH [of "putPixel J room p db"] putPixel_keys [of J room p db]
    by auto
qed

lemma guarded_update_keys:
  assumes "onPixelUpdate J w data = (c, w')" and "canvas w = Some db" and "canvas w' = Some db'"
    and "unmarshalPixelBatch J data = Some b"
  shows "c = 0 \<and> fst ` set (entries db')
     \<subseteq> fst ` set (entries db)
        \<union> (\<lambda>p. pixelKey (defaultRoom (Room b)) (X p) (Y p)) ` {p \<in> set (Pixels b). inBounds (X p) (Y p)}"
proof -
  have "db' = putPixels J (defaultRoom (Room b)) (validPixels (Pixels b)) db" and "c = 0"
    using assms by (auto simp add: onPixelUpdate_def putPixelsChecked_valid)
  then show ?thesis
    using putPixels_keys [of J "defaultRoom (Room b)" "validPixels (Pixels b)" db]
    by (simp add: validPixels_def)
qed

lemma pooled_update_keys:
  assumes "savePixels J w (Decoded (room, ps)) = Returned (c, w')"
    and "canvas w = Some db" and "canvas w' = Some db'"
  shows "fst ` set (entries db')
     \<subseteq> fst ` set (entries db)
        \<union> (\<lambda>p. pixelKey room (X p) (Y p)) ` {p \<in> set ps. inBounds (X p) (Y p)}"
proof -
  have "db' = db \<or> db' = putPixels J room (validPixels ps) db"
    using assms by (auto simp add: savePixels_def getCanvasDB_def split: option.splits)
  then show ?thesis
    using putPixels_keys [of J room "validPixels ps" db] by (auto simp add: validPixels_def)
qed

lemma guarded_chat_key:
  assumes "onChatMessages J w data = (c, w')" and "chat w = Some db"
    and "unmarshalChatEnvelope J data = Some e"
  shows "w' = w \<or> (\<exists>d. w' = w\<lparr>chat := Some (db\<lparr>entries :=
           upsert (chatKey (defaultRoom (EnvRoom e)) (ID (Msg e))) d (entries db)\<rparr>)\<rparr>)"
  using assms by (auto simp add: onChatMessages_def dbPut_def split: option.splits if_splits)

section \<open>C7: the key scheme\<close>

text \<open>
  C7. Pixels are stored under \<open>/{room}/{x}:{y}\<close> by every variant of the pixel handler, and
  the chat handlers of part_003, part_002, part_004, part_000 and part_001 store a message
  under \<open>/{room}/{id}\<close>. The chat handler of backend.go does not: it builds the key from
  the timestamp. For the message \<open>m1\<close> with timestamp 42 in the room \<open>r\<close> it writes
  \<open>/r/42\<close>, where the handler of part_003 writes \<open>/r/m1\<close>.
\<close>

theorem chat_key_backend_uses_timestamp:
  "onChatMessages_backend envJson freshWorld []
     = (0, freshWorld\<lparr>chat := Some (freshDB\<lparr>entries := [(''/r/42'', map charByte ''m1'')]\<rparr>)\<rparr>)
   \<and> onChatMessages envJson freshWorld []
     = (0, freshWorld\<lparr>chat := Some (freshDB\<lparr>entries := [(''/r/m1'', map charByte ''m1'')]\<rparr>)\<rparr>)"
  by (simp add: onChatMessages_backend_def onChatMessages_def envJson_def idJson_def colorJson_def
        freshWorld_def freshDB_def defaultRoom_def dbPut_def chatKey_def showInt_42)

section \<open>C3: pixels outside the canvas\<close>

text \<open>
  C3. The guarded variants drop a pixel outside the canvas and save the others
  (\<open>guarded_update_keys\<close>, \<open>pooled_update_keys\<close>). The handler of backend.go has no
  bounds test: for a batch with the pixels (100, 5) and (10, 5) it stores both, and the
  canvas query of backend.go then panics on the key \<open>/r1/100:5\<close>, where the handler of
  part_003 stores only (10, 5).
\<close>

theorem backend_stores_out_of_range_pixel:
  "onPixelUpdate_backend strayJson freshWorld []
     = (0, freshWorld\<lparr>canvas := Some (freshDB\<lparr>entries :=
          [(''/r1/100:5'', map charByte ''#ff0000''), (''/r1/10:5'', map charByte ''#00ff00'')]\<rparr>)\<rparr>)
   \<and> getCanvas_backend strayJson
        (freshWorld\<lparr>canvas := Some (freshDB\<lparr>entries :=
          [(''/r1/100:5'', map charByte ''#ff0000''), (''/r1/10:5'', map charByte ''#00ff00'')]\<rparr>)\<rparr>)
        (Some ''r1'') = Panicked
   \<and> onPixelUpdate strayJson freshWorld []
     = (0, freshWorld\<lparr>canvas := Some (freshDB\<lparr>entries :=
          [(''/r1/10:5'', map charByte ''#00ff00'')]\<rparr>)\<rparr>)"
proof -
  have k1: "pixelKey ''r1'' 100 5 = ''/r1/100:5''" and k2: "pixelKey ''r1'' 10 5 = ''/r1/10:5''"
    by (simp_all add: pixelKey_def showInt_100 showInt_5 showInt_10)
  have a: "onPixelUpdate_backend strayJson freshWorld []
     = (0, freshWorld\<lparr>canvas := Some (freshDB\<lparr>entries :=
          [(''/r1/100:5'', map charByte ''#ff0000''), (''/r1/10:5'', map charByte ''#00ff00'')]\<rparr>)\<rparr>)"
    by (simp add: onPixelUpdate_backend_def strayJson_def colorJson_def freshWorld_def freshDB_def
          defaultRoom_def putPixel_def dbPut_def k1 k2)
  have b: "getCanvas_backend strayJson
        (freshWorld\<lparr>canvas := Some (freshDB\<lparr>entries :=
          [(''/r1/100:5'', map charByte ''#ff0000''), (''/r1/10:5'', map charByte ''#00ff00'')]\<rparr>)\<rparr>)
        (Some ''r1'') = Panicked"
    by (simp add: getCanvas_backend_def freshWorld_def freshDB_def dbList_def roomPrefix_def
          hasPrefix_def overlayKey_backend_def scan_100_5 dbGet_def strayJson_def colorJson_def
          setCell_def blankCanvas_def CanvasWidth_def CanvasHeight_def)
  have c: "onPixelUpdate strayJson freshWorld []
     = (0, freshWorld\<lparr>canvas := Some (freshDB\<lparr>entries :=
          [(''/r1/10:5'', map charByte ''#00ff00'')]\<rparr>)\<rparr>)"
    by (simp add: onPixelUpdate_def strayJson_def colorJson_def freshWorld_def freshDB_def
          defaultRoom_def putPixel_def dbPut_def k2 CanvasWidth_def CanvasHeight_def)
  show ?thesis using a b c by simp
qed

section \<open>The canvas query keeps the grid complete\<close>










section \<open>C5: the canvas query\<close>




section \<open>Printing and scanning coordinates\<close>

lemma of_char_digitChar: "d < 10 \<Longrightarrow> (of_char (digitChar d) :: nat) = 48 + d"
  by (simp add: digitChar_def of_char_of)

lemma digitChar_isDigit: "d < 10 \<Longrightarrow> isDigitChar (digitChar d)"
  by (simp add: isDigitChar_def of_char_digitChar)

lemma digitsValue_snoc:
  "digitsValue (tok @ [c]) = 10 * digitsValue tok + ((of_char c :: nat) - 48)"
  by (simp add: digitsValue_def)

lemma showNat_props:
  "showNat n \<noteq> [] \<and> (\<forall>c\<in>set (showNat n). isDigitChar c) \<and> digitsValue (showNat n) = n"
proof (induction n rule: showNat.induct)
  case (1 n)
  show ?case
  proof (cases "n < 10")
    case True
    then have "showNat n = [digitChar n]" by (subst showNat.simps) simp
    then show ?thesis using True
      by (simp add: digitChar_isDigit digitsValue_def of_char_digitChar)
  next
    case False
    then have s: "showNat n = showNat (n div 10) @ [digitChar (n mod 10)]"
      by (subst showNat.simps) simp
    have m: "n mod 10 < 10" by simp
    show ?thesis using 1 [OF False] m
      by (simp add: s digitsValue_snoc digitChar_isDigit of_char_digitChar)
  qed
qed

lemma digit_not_special:
  assumes "isDigitChar c"
  shows "(of_char c :: nat) \<noteq> 10" "\<not> isSpaceChar c" "c \<noteq> CHR ''-''" "c \<noteq> CHR ''+''"
    "c \<noteq> CHR ''_''" "c \<noteq> CHR '':''" "isNumberChar c"
  using assms by (auto simp add: isDigitChar_def isSpaceChar_def isNumberChar_def)

lemma colon_not_number: "\<not> isNumberChar CHR '':''"
  by (simp add: isNumberChar_def isDigitChar_def)

lemma scanInt_showNat:
  assumes "n < 2 ^ 63" and "takeWhile isNumberChar rest = []"
  shows "scanInt (showNat n @ rest) = Some (int n, rest)"
proof -
  from showNat_props [of n] obtain c cs where s: "showNat n = c # cs"
    and dig: "\<forall>c\<in>set (showNat n). isDigitChar c" and v: "digitsValue (showNat n) = n"
    by (cases "showNat n") auto
  have c: "isDigitChar c" using dig s by simp
  have num: "\<forall>c\<in>set (showNat n). isNumberChar c" using dig by (simp add: digit_not_special)
  have sk: "skipSpace (showNat n @ rest) = Some (c # cs @ rest)"
    using digit_not_special [OF c] by (simp add: s)
  have tw: "takeWhile isNumberChar (c # cs @ rest) = showNat n"
    using num assms(2) takeWhile_append2 [of "showNat n" isNumberChar rest] by (simp add: s)
  have dw: "dropWhile isNumberChar (c # cs @ rest) = rest"
  proof -
    have "dropWhile isNumberChar (showNat n @ rest) = dropWhile isNumberChar rest"
      using num by (simp add: dropWhile_append2)
    moreover have "dropWhile isNumberChar rest = rest"
      using assms(2) by (cases rest) (auto split: if_splits)
    ultimately show ?thesis by (simp add: s)
  qed
  have us: "CHR ''_'' \<notin> set (showNat n)" using dig digit_not_special(5) by blast
  have rng: "- (2 ^ 63) \<le> int n \<and> int n < 2 ^ 63"
  proof -
    have "int n < int (2 ^ 63)" using assms(1) by (simp only: of_nat_less_iff)
    then show ?thesis by simp
  qed
  show ?thesis
    unfolding scanInt_def sk
    using digit_not_special [OF c] us rng
    by (simp add: Let_def tw dw v del: takeWhile.simps dropWhile.simps) (simp add: s)
qed

lemma sscanf_roundtrip:
  assumes "0 \<le> x" "x < 2 ^ 63" "0 \<le> y" "y < 2 ^ 63"
  shows "sscanfCoord (showInt x @ '':'' @ showInt y) = Some (x, y)"
proof -
  have x: "nat x < 2 ^ 63" and y: "nat y < 2 ^ 63" using assms by (simp_all add: nat_less_iff)
  have sx: "showInt x = showNat (nat x)" and sy: "showInt y = showNat (nat y)"
    using assms by (simp_all add: showInt_def)
  have a: "scanInt (showNat (nat x) @ CHR '':'' # showNat (nat y))
             = Some (x, CHR '':'' # showNat (nat y))"
    using scanInt_showNat [OF x, of "CHR '':'' # showNat (nat y)"] assms
    by (simp add: colon_not_number)
  have b: "scanInt (showNat (nat y)) = Some (y, [])"
    using scanInt_showNat [OF y, of "[]"] assms by simp
  show ?thesis by (simp add: sscanfCoord_def sx sy a b)
qed

lemma pixelKey_scan:
  assumes "0 \<le> x" "x < 2 ^ 63" "0 \<le> y" "y < 2 ^ 63"
  shows "sscanfCoord (drop (length (roomPrefix room)) (pixelKey room x y)) = Some (x, y)"
    and "length (pixelKey room x y) > length (roomPrefix room)"
    and "hasPrefix (roomPrefix room) (pixelKey room x y)"
proof -
  have k: "pixelKey room x y = roomPrefix room @ (showInt x @ '':'' @ showInt y)"
    by (simp add: pixelKey_def roomPrefix_def)
  show "sscanfCoord (drop (length (roomPrefix room)) (pixelKey room x y)) = Some (x, y)"
    unfolding k using sscanf_roundtrip [OF assms] by simp
  show "length (pixelKey room x y) > length (roomPrefix room)" unfolding k by simp
  show "hasPrefix (roomPrefix room) (pixelKey room x y)" unfolding k by (simp add: hasPrefix_def)
qed

section \<open>The color of a cell after the overlay\<close>







section \<open>The store after a batch\<close>







lemma inBounds_range:
  assumes "inBounds x y"
  shows "0 \<le> x" "x < 2 ^ 63" "0 \<le> y" "y < 2 ^ 63"
proof -
  have "x < 90" "y < 90" "0 \<le> x" "0 \<le> y"
    using assms by (simp_all add: inBounds_def CanvasWidth_def CanvasHeight_def)
  moreover have "(90 :: int) < 2 ^ 63" by simp
  ultimately show "0 \<le> x" "x < 2 ^ 63" "0 \<le> y" "y < 2 ^ 63" by linarith+
qed

lemma pixelKey_scan_inBounds:
  "inBounds x y \<Longrightarrow>
   sscanfCoord (drop (length (roomPrefix room)) (pixelKey room x y)) = Some (x, y)"
  by (rule pixelKey_scan(1) [OF inBounds_range])






section \<open>Room names without the key delimiter\<close>

text \<open>
  When every stored key is the key of a pixel on the canvas in a room whose name has no
  \<open>/\<close>, no key of another room and no second key of the same room scans to a given
  cell; and the guarded ingestion keeps the store in that form.
\<close>

lemma no_alias_without_delimiter:
  assumes "CHR ''/'' \<notin> set room" and "inBounds x y"
    and "\<forall>k\<in>set ks. \<exists>r x' y'. CHR ''/'' \<notin> set r \<and> inBounds x' y' \<and> k = pixelKey r x' y'"
  shows "\<forall>k\<in>set ks. hasPrefix (roomPrefix room) k \<and> k \<noteq> pixelKey room x y
           \<longrightarrow> sscanfCoord (drop (length (roomPrefix room)) k) \<noteq> Some (x, y)"
proof (intro ballI impI)
  fix k assume kin: "k \<in> set ks"
    and h: "hasPrefix (roomPrefix room) k \<and> k \<noteq> pixelKey room x y"
  from assms(3) kin obtain r x' y' where r: "CHR ''/'' \<notin> set r" and ib: "inBounds x' y'"
    and k: "k = pixelKey r x' y'" by blast
  have ks: "k = roomPrefix r @ (showInt x' @ '':'' @ showInt y')"
    by (simp add: k pixelKey_def roomPrefix_def)
  have "r = room"
  proof (rule ccontr)
    assume "r \<noteq> room"
    from other_room_not_under_prefix [OF assms(1) r this, of "showInt x' @ '':'' @ showInt y'"]
    show False using h ks by simp
  qed
  then have "sscanfCoord (drop (length (roomPrefix room)) k) = Some (x', y')"
    using pixelKey_scan_inBounds [OF ib, of room] by (simp add: k)
  moreover have "(x', y') \<noteq> (x, y)" using h k \<open>r = room\<close> by auto
  ultimately show "sscanfCoord (drop (length (roomPrefix room)) k) \<noteq> Some (x, y)" by simp
qed

lemma canonical_keys_preserved:
  assumes "CHR ''/'' \<notin> set room"
    and "\<forall>k\<in>fst ` set (entries db). \<exists>r x' y'. CHR ''/'' \<notin> set r \<and> inBounds x' y' \<and> k = pixelKey r x' y'"
  shows "\<forall>k\<in>fst ` set (entries (putPixelsChecked J room ps db)).
           \<exists>r x' y'. CHR ''/'' \<notin> set r \<and> inBounds x' y' \<and> k = pixelKey r x' y'"
proof
  fix k assume "k \<in> fst ` set (entries (putPixelsChecked J room ps db))"
  then have "k \<in> fst ` set (entries db) \<union> (\<lambda>p. pixelKey room (X p) (Y p)) ` set (validPixels ps)"
    using putPixels_keys [of J room "validPixels ps" db] by (auto simp add: putPixelsChecked_valid)
  then show "\<exists>r x' y'. CHR ''/'' \<notin> set r \<and> inBounds x' y' \<and> k = pixelKey r x' y'"
  proof
    assume "k \<in> fst ` set (entries db)" then show ?thesis using assms(2) by blast
  next
    assume "k \<in> (\<lambda>p. pixelKey room (X p) (Y p)) ` set (validPixels ps)"
    then obtain p where "p \<in> set (validPixels ps)" "k = pixelKey room (X p) (Y p)" by blast
    then show ?thesis using assms(1) by (auto simp add: validPixels_def)
  qed
qed

section \<open>C1: an ingested pixel in the canvas query\<close>




section \<open>Decoding the same content from each format\<close>

lemma truncFloat_of_int [simp]: "truncFloat (of_int n) = n"
  by (simp add: truncFloat_def)

lemma compressedPixel_triple:
  "compressedPixel s (compressedTriple p) = [anonymous s p]"
  by (simp add: compressedPixel_def compressedTriple_def anonymous_def)

lemma compressed_pixels:
  "concat (map (compressedPixel s) (map compressedTriple qs)) = map (anonymous s) qs"
  by (induction qs) (simp_all add: compressedPixel_triple)

lemma defaultRoom_idem [simp]: "defaultRoom (defaultRoom r) = defaultRoom r"
  by (simp add: defaultRoom_def)

lemma xyc_anonymous [simp]: "xyc (anonymous s p) = xyc p"
  by (simp add: xyc_def anonymous_def)

lemma decodePixelsFramed_encoded:
  assumes "length batchId < 2 ^ 32" "length ts < 2 ^ 32"
  shows "decodePixelsFramed (encodeFramedBatch batchId ts) = Decoded (''default'', map pixelOf ts)"
proof -
  define data where "data = encodeFramedBatch batchId ts"
  define hdr where "hdr = enc32 (of_nat (length batchId)) @ batchId"
  have d: "data = hdr @ enc32 (of_nat (length ts)) @ concat (map encPixel ts)"
    by (simp add: data_def hdr_def encodeFramedBatch_def)
  have lh: "length hdr = 4 + length batchId" by (simp add: hdr_def)
  have l0: "le32 data 0 = Some (of_nat (length batchId))"
    using le32_at [of 0 "[]" "of_nat (length batchId)"
        "batchId @ enc32 (of_nat (length ts)) @ concat (map encPixel ts)"]
    by (simp add: data_def encodeFramedBatch_def)
  have l1: "le32 data (4 + length batchId) = Some (of_nat (length ts))"
    using le32_at [of "4 + length batchId" hdr "of_nat (length ts)" "concat (map encPixel ts)"]
    by (simp add: d lh)
  have rp: "readPixels data (length ts) 0 (4 + length batchId + 4) = Some (map pixelOf ts)"
    using readPixels_encoded [of "hdr @ enc32 (of_nat (length ts))" ts 0]
    by (simp add: d lh add.commute add.left_commute)
  have g: "4 \<le> length data" "4 + length batchId \<le> length data"
    "4 + length batchId + 4 \<le> length data"
    by (simp_all add: d lh)
  have "decodePixelsFramed data = Decoded (''default'', map pixelOf ts)"
    by (simp only: decodePixelsFramed_def g if_True l0 l1 option.case Let_def
          unat_count [OF assms(1)] unat_count [OF assms(2)] rp)
  then show ?thesis by (simp add: data_def)
qed

lemma binary_defaults:
  "readPixels data n i off = Some ps \<Longrightarrow>
   \<forall>p\<in>set ps. UserID p = ''unknown'' \<and> Username p = ''unknown''"
proof (induction data n i off arbitrary: ps rule: readPixels.induct)
  case (1 data pixelCount i offset)
  show ?case
  proof (cases "i < pixelCount \<and> offset + 8 \<le> length data")
    case False
    have "readPixels data pixelCount i offset = Some []"
      by (subst readPixels.simps, simp only: False if_False)
    then show ?thesis using 1(2) by simp
  next
    case True
    have e: "readPixels data pixelCount i offset =
        (case le16 data offset of None \<Rightarrow> None | Some x \<Rightarrow>
         case le16 data (offset + 2) of None \<Rightarrow> None | Some y \<Rightarrow>
         case le32 data (offset + 4) of None \<Rightarrow> None | Some colorValue \<Rightarrow>
         case readPixels data pixelCount (i + 1) (offset + 8) of None \<Rightarrow> None | Some rest \<Rightarrow>
           Some (\<lparr>X = uint x, Y = uint y, Color = colorString colorValue,
                  UserID = ''unknown'', Username = ''unknown''\<rparr> # rest))"
      by (subst readPixels.simps, simp only: True simp_thms if_True)
    from 1(2) obtain x y c rest where x: "le16 data offset = Some x"
      and y: "le16 data (offset + 2) = Some y" and c: "le32 data (offset + 4) = Some c"
      and r: "readPixels data pixelCount (i + 1) (offset + 8) = Some rest"
      and ps: "ps = \<lparr>X = uint x, Y = uint y, Color = colorString c,
                  UserID = ''unknown'', Username = ''unknown''\<rparr> # rest"
      unfolding e by (auto split: option.splits)
    from 1(1) [OF True x y c r] show ?thesis by (simp add: ps)
  qed
qed

lemma decodePixelsBinary_encoded:
  assumes "length ts < 2 ^ 32"
  shows "decodePixelsBinary (encodePixelBatch ts) = Decoded (''default'', map pixelOf ts)"
  using decodePixelsBinary_truncated [of ts "of_nat (length ts)" "[]"] unat_count [OF assms]
  by (simp add: encodePixelBatch_def)

lemma binary_decoders_default:
  "(decodePixelsBinary data = Decoded (room, ps) \<or> decodePixelsFramed data = Decoded (room, ps))
   \<Longrightarrow> room = ''default'' \<and> (\<forall>p\<in>set ps. UserID p = ''unknown'' \<and> Username p = ''unknown'')"
  using binary_defaults
  by (auto simp add: decodePixelsBinary_def decodePixelsFramed_def Let_def
        split: if_splits option.splits)

lemma pixelOf_red:
  "pixelOf (10, 5, 0xFF0000)
     = \<lparr>X = 10, Y = 5, Color = ''#ff0000'', UserID = ''unknown'', Username = ''unknown''\<rparr>"
  by (simp add: pixelOf_def hexDigits6_def hexChar_def char_of_def bit_simps)

section \<open>C4: the four wire formats\<close>

text \<open>
  C4, as the claim states it, fails: the binary layout carries neither user id, username
  nor room, so a binary batch always decodes to the room \<open>default\<close> and to pixels of the
  user \<open>unknown\<close> (\<open>binary_decoders_default\<close>). The pixel (10, 5, #ff0000) of the user
  \<open>u1\<close>, \<open>alice\<close> in the room \<open>r1\<close> decodes from the batch object as it is, and from the
  binary layout without user and room.
\<close>

theorem formats_differ_counterexample:
  "decodePixelsObject specJson []
     = Decoded (''r1'', [\<lparr>X = 10, Y = 5, Color = ''#ff0000'', UserID = ''u1'', Username = ''alice''\<rparr>])
   \<and> decodePixelsBinary (encodePixelBatch [(10, 5, 0xFF0000)])
     = Decoded (''default'', [\<lparr>X = 10, Y = 5, Color = ''#ff0000'', UserID = ''unknown'',
                                Username = ''unknown''\<rparr>])
   \<and> decodePixelsObject specJson [] \<noteq> decodePixelsBinary (encodePixelBatch [(10, 5, 0xFF0000)])"
proof -
  have a: "decodePixelsObject specJson []
     = Decoded (''r1'', [\<lparr>X = 10, Y = 5, Color = ''#ff0000'', UserID = ''u1'', Username = ''alice''\<rparr>])"
    by (simp add: decodePixelsObject_def specJson_def colorJson_def defaultRoom_def)
  have "length [(10 :: 16 word, 5 :: 16 word, 0xFF0000 :: 32 word)] < 2 ^ 32" by simp
  from decodePixelsBinary_encoded [OF this]
  have b: "decodePixelsBinary (encodePixelBatch [(10, 5, 0xFF0000)])
     = Decoded (''default'', [\<lparr>X = 10, Y = 5, Color = ''#ff0000'', UserID = ''unknown'',
                                Username = ''unknown''\<rparr>])"
    by (simp add: pixelOf_red)
  show ?thesis unfolding a b by simp
qed

text \<open>
  C4, amended. For the same non-empty sequence of pixels given as a bare array, as a
  batch object, as a compressed object (integral coordinates) and in the two binary
  layouts, every decoder succeeds and yields the same sequence of x, y and color, in the
  same order. The room is \<open>default\<close> for the bare array and the binary layouts and the
  room field (or \<open>default\<close> when empty) for the two objects; the compressed format yields
  the source id as user id and the username \<open>unknown\<close>, the binary layouts yield
  \<open>unknown\<close> for both. When the content itself has user id and username \<open>unknown\<close> and
  the source id is \<open>unknown\<close>, all decoders yield the very same Pixel records.
\<close>

theorem formats_agree_on_cells:
  assumes "qs \<noteq> []" and "length ts < 2 ^ 32" and "length batchId < 2 ^ 32"
    and "map xyc (map pixelOf ts) = map xyc qs"
    and "unmarshalPixels J d1 = Some qs"
    and "unmarshalPixelBatch J d2 = Some b" and "Pixels b = qs"
    and "unmarshalCompressed J d3 = Some cb" and "P cb = map compressedTriple qs"
  shows "decodePixelsArray J d1 = Decoded (''default'', qs)
       \<and> decodePixelsObject J d2 = Decoded (defaultRoom (Room b), qs)
       \<and> decodePixelsCompressed J d3 = Decoded (defaultRoom (R cb), map (anonymous (S cb)) qs)
       \<and> decodePixelsBinary (encodePixelBatch ts) = Decoded (''default'', map pixelOf ts)
       \<and> decodePixelsFramed (encodeFramedBatch batchId ts) = Decoded (''default'', map pixelOf ts)
       \<and> map xyc (map (anonymous (S cb)) qs) = map xyc qs
       \<and> map xyc (map pixelOf ts) = map xyc qs
       \<and> ((\<forall>q\<in>set qs. UserID q = ''unknown'' \<and> Username q = ''unknown'') \<and> S cb = ''unknown''
            \<longrightarrow> map (anonymous (S cb)) qs = qs \<and> map pixelOf ts = qs)"
proof -
  have a: "decodePixelsArray J d1 = Decoded (''default'', qs)"
    using assms(1,5) by (simp add: decodePixelsArray_def)
  have o: "decodePixelsObject J d2 = Decoded (defaultRoom (Room b), qs)"
    using assms(6,7) by (simp add: decodePixelsObject_def)
  have c: "decodePixelsCompressed J d3 = Decoded (defaultRoom (R cb), map (anonymous (S cb)) qs)"
  proof -
    have "concat (map (compressedPixel (S cb)) (P cb)) = map (anonymous (S cb)) qs"
      by (simp only: assms(9) compressed_pixels)
    moreover have "length (P cb) > 0" using assms(1,9) by simp
    ultimately show ?thesis by (simp add: decodePixelsCompressed_def assms(8))
  qed
  have bi: "decodePixelsBinary (encodePixelBatch ts) = Decoded (''default'', map pixelOf ts)"
    using decodePixelsBinary_encoded [OF assms(2)] .
  have fr: "decodePixelsFramed (encodeFramedBatch batchId ts) = Decoded (''default'', map pixelOf ts)"
    using decodePixelsFramed_encoded [OF assms(3,2)] .
  have x1: "map xyc (map (anonymous (S cb)) qs) = map xyc qs" by (simp add: comp_def)
  have full: "map (anonymous (S cb)) qs = qs \<and> map pixelOf ts = qs"
    if u: "\<forall>q\<in>set qs. UserID q = ''unknown'' \<and> Username q = ''unknown''" and s: "S cb = ''unknown''"
  proof
    have "anonymous (S cb) q = q" if "q \<in> set qs" for q
      using u s that by (simp add: anonymous_def)
    then show "map (anonymous (S cb)) qs = qs" by (simp add: map_idI)
    have len: "length ts = length qs" using assms(4) by (metis length_map)
    show "map pixelOf ts = qs"
    proof (rule nth_equalityI)
      show "length (map pixelOf ts) = length qs" using len by simp
    next
      fix i assume i: "i < length (map pixelOf ts)"
      then have iq: "i < length qs" using len by simp
      have "xyc (pixelOf (ts ! i)) = xyc (qs ! i)"
        using assms(4) i iq by (metis length_map nth_map)
      moreover have "UserID (pixelOf (ts ! i)) = ''unknown''" "Username (pixelOf (ts ! i)) = ''unknown''"
        by (cases "ts ! i"; simp add: pixelOf_def)+
      moreover have "UserID (qs ! i) = ''unknown''" "Username (qs ! i) = ''unknown''"
        using u iq by simp_all
      ultimately have "pixelOf (ts ! i) = qs ! i" by (simp add: xyc_def)
      then show "map pixelOf ts ! i = qs ! i" using i by simp
    qed
  qed
  show ?thesis using a o c bi fr x1 assms(4) full by blast
qed

theorem formats_agree_on_cells_witness:
  "decodePixelsArray formatsJson []
     = Decoded (''default'', [\<lparr>X = 10, Y = 5, Color = ''#ff0000'', UserID = ''unknown'',
                                Username = ''unknown''\<rparr>])
   \<and> decodePixelsObject formatsJson [] = decodePixelsArray formatsJson []
   \<and> decodePixelsCompressed formatsJson [] = decodePixelsArray formatsJson []
   \<and> decodePixelsBinary (encodePixelBatch [(10, 5, 0xFF0000)]) = decodePixelsArray formatsJson []
   \<and> decodePixelsFramed (encodeFramedBatch [] [(10, 5, 0xFF0000)]) = decodePixelsArray formatsJson []"
proof -
  define q where "q = \<lparr>X = 10, Y = 5, Color = ''#ff0000'', UserID = ''unknown'', Username = ''unknown''\<rparr>"
  define b where "b = \<lparr>Pixels = [q], Room = [], BatchTimestamp = 0, BatchId = [],
      SourceId = ''unknown''\<rparr>"
  define cb where "cb = \<lparr>P = [[IFloat 10, IFloat 5, IString ''#ff0000'']],
        R = [], T = 0, B = [], S = ''unknown''\<rparr>"
  have h1: "[q] \<noteq> []" by simp
  have h2: "length [(10 :: 16 word, 5 :: 16 word, 0xFF0000 :: 32 word)] < 2 ^ 32" by simp
  have h3: "length ([] :: byte list) < 2 ^ 32" by simp
  have h4: "map xyc (map pixelOf [(10, 5, 0xFF0000)]) = map xyc [q]"
    by (simp add: pixelOf_red q_def)
  have h5: "unmarshalPixels formatsJson [] = Some [q]"
    by (simp add: formatsJson_def colorJson_def q_def)
  have h6: "unmarshalPixelBatch formatsJson [] = Some b"
    by (simp add: formatsJson_def colorJson_def b_def q_def)
  have h7: "Pixels b = [q]" by (simp add: b_def)
  have h8: "unmarshalCompressed formatsJson [] = Some cb"
    by (simp add: formatsJson_def colorJson_def cb_def)
  have h9: "P cb = map compressedTriple [q]"
    by (simp add: cb_def compressedTriple_def q_def)
  have u: "(\<forall>p\<in>set [q]. UserID p = ''unknown'' \<and> Username p = ''unknown'') \<and> S cb = ''unknown''"
    by (simp add: q_def cb_def)
  have r: "defaultRoom (Room b) = ''default''" "defaultRoom (R cb) = ''default''"
    by (simp_all add: defaultRoom_def b_def cb_def)
  from formats_agree_on_cells [OF h1 h2 h3 h4 h5 h6 h7 h8 h9] u r
  show ?thesis by (simp add: q_def)
qed

end
